theory Spec2Isabelle
  imports Complex_Main
begin

section \<open>Container.hpp: helper functions for C++ std containers\<close>

text \<open>
  The header is a library of template functions over iterator ranges. A range
  \<open>[first, last)\<close> is modelled by the list of its elements, the value type \<open>T\<close> of
  the distance functions by \<^typ>\<open>real\<close> (exact arithmetic: rounding, infinities and
  NaN of a floating-point \<open>T\<close> are outside the model), and the value type of the purely
  arithmetic transforms by a type variable of the algebraic class they need.

  What a function does besides returning a value is explicit:
  \<^item> the lines written to \<open>std::cerr\<close> are the first component of a \<open>result\<close>;
  \<^item> a failing \<open>assert\<close> (the header is compiled without \<open>NDEBUG\<close>), a read through
    an iterator outside its range and leaving a value-returning function without a
    \<open>return\<close> are the \<open>error\<close> alternatives of the second component;
  \<^item> containers written in place are returned updated.
\<close>

subsection \<open>Selectors and outcomes\<close>

datatype DistanceMetric =
    DM_EUCLIDEAN
  | DM_DOTPRODUCT
  | DM_BHATTACHARYYA
  | DM_HELLINGER
  | DM_MANHATTAN
  | DM_CHEBYSHEV
  | DM_BHATTACHARYYA_COEFFICIENT
  | DM_SQUARED_HELLINGER
  | DM_TYPES

datatype SetDistanceMetric =
    SDM_INFIMIM
  | SDM_SUPREMUM
  | SDM_HAUSDORFF
  | SDM_SUPINF
  | SDM_TYPES

datatype error =
    Assertion_failed   \<comment> \<open>\<open>assert\<close> aborts the program\<close>
  | Out_of_range       \<comment> \<open>an iterator is read outside its range\<close>
  | No_return_value    \<comment> \<open>control reaches the end of a non-void function\<close>

type_synonym 'a result = "string list \<times> (error + 'a)"

definition ret :: "'a \<Rightarrow> 'a result" where
  "ret v = ([], Inr v)"

definition bind :: "'a result \<Rightarrow> ('a \<Rightarrow> 'b result) \<Rightarrow> 'b result" where
  "bind m f =
     (case m of
        (cerr, Inl e) \<Rightarrow> (cerr, Inl e)
      | (cerr, Inr v) \<Rightarrow> (case f v of (cerr', r) \<Rightarrow> (cerr @ cerr', r)))"

text \<open>Decimal output of a container size, as \<open>operator<<\<close> prints it.\<close>

fun show_nat :: "nat \<Rightarrow> string" where
  "show_nat n =
     (if n < 10 then [''0123456789'' ! n]
      else show_nat (n div 10) @ [''0123456789'' ! (n mod 10)])"

declare show_nat.simps [simp del]

subsection \<open>Element-wise kernels\<close>

definition euclidean :: "real \<Rightarrow> real \<Rightarrow> real" where
  "euclidean x y = (x - y) * (x - y)"

definition taxicab :: "real \<Rightarrow> real \<Rightarrow> real" where
  "taxicab x y = \<bar>x - y\<bar>"

definition battacharyya :: "real \<Rightarrow> real \<Rightarrow> real" where
  "battacharyya x y = sqrt (x * y)"

definition hellinger :: "real \<Rightarrow> real \<Rightarrow> real" where
  "hellinger x y = (let tmp = sqrt x - sqrt y in tmp * tmp)"

text \<open>
  \<open>std::inner_product(first1, last1, first2, init, op1, op2)\<close>: one pass over the first
  range, \<open>init = op1(init, op2(*first1, *first2))\<close>. Every caller in the header has
  checked that the second range is as long as the first.
\<close>

definition inner_product ::
  "'a list \<Rightarrow> 'b list \<Rightarrow> 'c \<Rightarrow> ('c \<Rightarrow> 'd \<Rightarrow> 'c) \<Rightarrow> ('a \<Rightarrow> 'b \<Rightarrow> 'd) \<Rightarrow> 'c" where
  "inner_product xs ys init op1 op2 =
     fold (\<lambda>(x, y) acc. op1 acc (op2 x y)) (zip xs ys) init"

subsection \<open>Distance between two containers\<close>

definition container_size_unequal :: "nat \<Rightarrow> nat \<Rightarrow> string" where
  "container_size_unequal n1 n2 =
     ''Container size unequal: '' @ show_nat n1 @ '' vs '' @ show_nat n2"

definition distance :: "real list \<Rightarrow> real list \<Rightarrow> DistanceMetric \<Rightarrow> real result" where
  "distance seq1 seq2 metric =
     (if length seq2 \<noteq> length seq1
      then ([container_size_unequal (length seq1) (length seq2)], Inl Assertion_failed)
      else case metric of
        DM_DOTPRODUCT \<Rightarrow>
          ([], Inr (inner_product seq1 seq2 0 (+) (*)))
      | DM_EUCLIDEAN \<Rightarrow>
          ([], Inr (sqrt (inner_product seq1 seq2 0 (+) euclidean)))
      | DM_BHATTACHARYYA \<Rightarrow>
          ([], Inr (- ln (inner_product seq1 seq2 0 (+) battacharyya)))
      | DM_HELLINGER \<Rightarrow>
          ([], Inr (sqrt (inner_product seq1 seq2 0 (+) hellinger) / sqrt 2))
      | DM_CHEBYSHEV \<Rightarrow>
          ([], Inr (inner_product seq1 seq2 0 max taxicab))
      | DM_MANHATTAN \<Rightarrow>
          ([], Inr (inner_product seq1 seq2 0 (+) taxicab))
      | DM_BHATTACHARYYA_COEFFICIENT \<Rightarrow>
          ([], Inr (inner_product seq1 seq2 0 (+) battacharyya))
      | DM_SQUARED_HELLINGER \<Rightarrow>
          ([], Inr (sqrt (1 - inner_product seq1 seq2 0 (+) battacharyya)))
      | DM_TYPES \<Rightarrow>
          ([''Unknown distance metric''], Inr (- 1)))"

subsection \<open>Distance of a point to a set, and between sets\<close>

text \<open>
  \<open>std::min_element\<close> and \<open>std::max_element\<close> with a comparison object: the first
  element is the candidate, every later element is compared with the candidate once.
  An empty range yields the end iterator (\<open>None\<close>), and reading through it is outside
  the range. A set of points is the list of its points in iteration order.
\<close>

fun min_element_loop :: "('a \<Rightarrow> 'a \<Rightarrow> bool result) \<Rightarrow> 'a \<Rightarrow> 'a list \<Rightarrow> 'a result" where
  "min_element_loop cmp smallest [] = ret smallest"
| "min_element_loop cmp smallest (x # xs) =
     bind (cmp x smallest) (\<lambda>b. min_element_loop cmp (if b then x else smallest) xs)"

definition min_element :: "('a \<Rightarrow> 'a \<Rightarrow> bool result) \<Rightarrow> 'a list \<Rightarrow> 'a option result" where
  "min_element cmp xs =
     (case xs of
        [] \<Rightarrow> ret None
      | x # rest \<Rightarrow> bind (min_element_loop cmp x rest) (\<lambda>smallest. ret (Some smallest)))"

fun max_element_loop :: "('a \<Rightarrow> 'a \<Rightarrow> bool result) \<Rightarrow> 'a \<Rightarrow> 'a list \<Rightarrow> 'a result" where
  "max_element_loop cmp largest [] = ret largest"
| "max_element_loop cmp largest (x # xs) =
     bind (cmp largest x) (\<lambda>b. max_element_loop cmp (if b then x else largest) xs)"

definition max_element :: "('a \<Rightarrow> 'a \<Rightarrow> bool result) \<Rightarrow> 'a list \<Rightarrow> 'a option result" where
  "max_element cmp xs =
     (case xs of
        [] \<Rightarrow> ret None
      | x # rest \<Rightarrow> bind (max_element_loop cmp x rest) (\<lambda>largest. ret (Some largest)))"

definition deref :: "'a option \<Rightarrow> 'a result" where
  "deref it = (case it of None \<Rightarrow> ([], Inl Out_of_range) | Some x \<Rightarrow> ret x)"

definition comp_point_distance ::
  "DistanceMetric \<Rightarrow> real list \<Rightarrow> real list \<Rightarrow> real list \<Rightarrow> bool result" where
  "comp_point_distance point_metric ref x y =
     bind (distance x ref point_metric) (\<lambda>dx.
     bind (distance y ref point_metric) (\<lambda>dy.
     ret (dx < dy)))"

definition distance_to_point ::
  "real list list \<Rightarrow> real list \<Rightarrow> SetDistanceMetric \<Rightarrow> DistanceMetric \<Rightarrow> real result" where
  "distance_to_point set0 point set_metric point_metric =
     (case set_metric of
        SDM_INFIMIM \<Rightarrow>
          bind (min_element (comp_point_distance point_metric point) set0) (\<lambda>it.
          bind (deref it) (\<lambda>tmp.
          distance tmp point point_metric))
      | SDM_SUPREMUM \<Rightarrow>
          bind (max_element (comp_point_distance point_metric point) set0) (\<lambda>it.
          bind (deref it) (\<lambda>tmp.
          distance tmp point point_metric))
      | _ \<Rightarrow> ([''Not yet implemented''], Inr (- 1)))"

definition comp_point_set_distance ::
  "SetDistanceMetric \<Rightarrow> DistanceMetric \<Rightarrow> real list list \<Rightarrow> real list \<Rightarrow> real list \<Rightarrow>
   bool result" where
  "comp_point_set_distance set_metric point_metric set0 x y =
     bind (distance_to_point set0 x set_metric point_metric) (\<lambda>dx.
     bind (distance_to_point set0 y set_metric point_metric) (\<lambda>dy.
     ret (dx < dy)))"

text \<open>
  \<open>distance_to_set\<close> calls itself once, from \<open>SDM_HAUSDORFF\<close> to \<open>SDM_SUPINF\<close>. Its
  \<open>default\<close> branch writes a line and leaves the function without a \<open>return\<close>.
\<close>

function distance_to_set ::
  "real list list \<Rightarrow> real list list \<Rightarrow> SetDistanceMetric \<Rightarrow> DistanceMetric \<Rightarrow> real result" where
  "distance_to_set set1 set2 set_metric point_metric =
     (case set_metric of
        SDM_HAUSDORFF \<Rightarrow>
          bind (distance_to_set set1 set2 SDM_SUPINF point_metric) (\<lambda>dist_xy.
          bind (distance_to_set set2 set1 SDM_SUPINF point_metric) (\<lambda>dist_yx.
          ret (if dist_xy < dist_yx then dist_yx else dist_xy)))
      | SDM_SUPINF \<Rightarrow>
          bind (max_element (comp_point_set_distance SDM_INFIMIM point_metric set2) set1) (\<lambda>it.
          bind (deref it) (\<lambda>tmp.
          distance_to_point set2 tmp SDM_INFIMIM point_metric))
      | _ \<Rightarrow> ([''Not yet implemented''], Inl No_return_value))"
  by pat_completeness auto
termination
  by (relation "measure (\<lambda>(set1, set2, set_metric, point_metric).
        if set_metric = SDM_HAUSDORFF then 1 else 0)") auto

declare distance_to_set.simps [simp del]

subsection \<open>Moving a container away from or towards a reference\<close>

definition op_adjust :: "'a::linordered_idom \<Rightarrow> 'a \<Rightarrow> 'a \<Rightarrow> 'a" where
  "op_adjust mu x y = x + (x - y) * mu"

text \<open>
  \<open>std::transform(first1, last1, first2, d_first, op)\<close> with a binary operation. It
  reads as many elements of the second range as the first range has.
\<close>

fun transform :: "'a list \<Rightarrow> 'b list \<Rightarrow> ('a \<Rightarrow> 'b \<Rightarrow> 'c) \<Rightarrow> error + 'c list" where
  "transform [] ys binary_op = Inr []"
| "transform (x # xs) [] binary_op = Inl Out_of_range"
| "transform (x # xs) (y # ys) binary_op =
     (case transform xs ys binary_op of
        Inl e \<Rightarrow> Inl e
      | Inr zs \<Rightarrow> Inr (binary_op x y # zs))"

text \<open>
  Both functions write the transformed elements back over \<open>tomove\<close>; the state is the
  pair of containers, which are distinct objects.
\<close>

record 'a adjustment =
  tomove :: "'a list"
  reference :: "'a list"

definition increaseDistance ::
  "('a::linordered_idom) adjustment \<Rightarrow> 'a \<Rightarrow> error + 'a adjustment" where
  "increaseDistance st mu =
     (if \<not> mu > 0 then Inl Assertion_failed
      else if \<not> mu \<le> 1 then Inl Assertion_failed
      else case transform (tomove st) (reference st) (op_adjust mu) of
        Inl e \<Rightarrow> Inl e
      | Inr zs \<Rightarrow> Inr (st\<lparr>tomove := zs\<rparr>))"

definition decreaseDistance ::
  "('a::linordered_idom) adjustment \<Rightarrow> 'a \<Rightarrow> error + 'a adjustment" where
  "decreaseDistance st mu =
     (if \<not> mu > 0 then Inl Assertion_failed
      else if \<not> mu \<le> 1 then Inl Assertion_failed
      else case transform (tomove st) (reference st) (op_adjust (- mu)) of
        Inl e \<Rightarrow> Inl e
      | Inr zs \<Rightarrow> Inr (st\<lparr>tomove := zs\<rparr>))"

subsection \<open>Integral and circular convolution\<close>

text \<open>
  \<open>integral\<close> writes through an output iterator; the model returns the values written,
  in order. The loop carries the running \<open>value\<close>.
\<close>

fun integral_loop :: "'a::semiring_0 \<Rightarrow> 'a list \<Rightarrow> 'a list \<Rightarrow> error + 'a list" where
  "integral_loop val [] ys = Inr []"
| "integral_loop val (x # xs) [] = Inl Out_of_range"
| "integral_loop val (x # xs) (y # ys) =
     (let val' = val + x * y in
      case integral_loop val' xs ys of
        Inl e \<Rightarrow> Inl e
      | Inr out \<Rightarrow> Inr (val' # out))"

definition integral :: "('a::semiring_0) list \<Rightarrow> 'a list \<Rightarrow> error + 'a list" where
  "integral xs ys =
     (case xs of
        [] \<Rightarrow> Inr []
      | x # xs' \<Rightarrow>
          (case ys of
             [] \<Rightarrow> Inl Out_of_range
           | y # ys' \<Rightarrow>
               (let val = x * y in
                case integral_loop val xs' ys' of
                  Inl e \<Rightarrow> Inl e
                | Inr out \<Rightarrow> Inr (val # out))))"

text \<open>
  \<open>reverse_inner_product\<close> walks the first range forwards and the second backwards from
  its last element. Only reads are modelled: stepping the second iterator before the
  beginning without reading through it is not an error of the model.
\<close>

fun reverse_inner_product_loop :: "'a::semiring_0 list \<Rightarrow> 'a list \<Rightarrow> 'a \<Rightarrow> error + 'a" where
  "reverse_inner_product_loop [] backwards init = Inr init"
| "reverse_inner_product_loop (x # xs) [] init = Inl Out_of_range"
| "reverse_inner_product_loop (x # xs) (y # backwards) init =
     reverse_inner_product_loop xs backwards (init + x * y)"

definition reverse_inner_product :: "'a::semiring_0 list \<Rightarrow> 'a list \<Rightarrow> 'a \<Rightarrow> error + 'a" where
  "reverse_inner_product xs ys init = reverse_inner_product_loop xs (rev ys) init"

text \<open>
  \<open>std::rotate(first, middle, last)\<close> makes the element at \<open>middle\<close> the first one;
  \<open>middle\<close> is given by its index and has to lie inside the range.
\<close>

definition std_rotate :: "nat \<Rightarrow> 'a list \<Rightarrow> 'a list" where
  "std_rotate middle xs = drop middle xs @ take middle xs"

text \<open>
  The state of \<open>circular_convolution\<close>: the two input containers and the values written
  through \<open>result\<close> so far. The three are distinct objects.
\<close>

record 'a convolution =
  input1 :: "'a list"
  input2 :: "'a list"
  written :: "'a list"

fun circular_convolution_loop ::
  "nat \<Rightarrow> int \<Rightarrow> ('a::semiring_0) convolution \<Rightarrow> error + 'a convolution" where
  "circular_convolution_loop 0 shift st = Inr st"
| "circular_convolution_loop (Suc count) shift st =
     (if shift < 0 \<or> int (length (input2 st)) < shift then Inl Out_of_range
      else
        let rotated = std_rotate (length (input2 st) - nat shift) (input2 st) in
        case reverse_inner_product (input1 st) rotated 0 of
          Inl e \<Rightarrow> Inl e
        | Inr v \<Rightarrow>
            circular_convolution_loop count shift
              (st\<lparr>input2 := rotated, written := written st @ [v]\<rparr>))"

definition circular_convolution ::
  "('a::semiring_0) convolution \<Rightarrow> int \<Rightarrow> error + 'a convolution" where
  "circular_convolution st shift = circular_convolution_loop (length (input1 st)) shift st"

text \<open>A normalized histogram: non-negative bins that sum to 1.\<close>

definition normalized :: "real list \<Rightarrow> bool" where
  "normalized h \<longleftrightarrow> list_all (\<lambda>x. 0 \<le> x) h \<and> sum_list h = 1"

section \<open>Properties of \<open>distance\<close>\<close>

text \<open>
  C6. On two sequences of unequal length, \<open>distance\<close> fails for every metric selector:
  it writes the two sizes to \<open>std::cerr\<close> and the assertion on the sizes aborts; no
  value is computed from a prefix.
\<close>

theorem distance_length_mismatch:
  assumes "length seq1 \<noteq> length seq2"
  shows "distance seq1 seq2 metric =
           ([container_size_unequal (length seq1) (length seq2)], Inl Assertion_failed)"
  using assms by (simp add: distance_def)

theorem distance_length_mismatch_witness:
  "length [1, 2, 3 :: real] \<noteq> length [1, 2 :: real] \<and>
   distance [1, 2, 3] [1, 2] DM_EUCLIDEAN =
     ([''Container size unequal: 3 vs 2''], Inl Assertion_failed)"
  using distance_length_mismatch [of "[1, 2, 3]" "[1, 2]" DM_EUCLIDEAN]
  by (simp add: container_size_unequal_def show_nat.simps)


text \<open>
  C1, as the code has it. For a selector outside the eight implemented metrics the
  \<open>default\<close> branch writes \<open>Unknown distance metric\<close> to \<open>std::cerr\<close> and returns the
  number \<open>-1\<close>: the call does not fail, here on the sequences \<open>[1, 2]\<close> and \<open>[3, 4]\<close>.
\<close>

theorem distance_unknown_metric_counterexample:
  "distance [1, 2] [3, 4] DM_TYPES = ([''Unknown distance metric''], Inr (- 1))"
  by (simp add: distance_def)

text \<open>
  C1 (amended). For every pair of equal-length sequences and every selector outside the
  eight implemented metrics, \<open>distance\<close> writes the line \<open>Unknown distance metric\<close> to
  \<open>std::cerr\<close> and returns the sentinel \<open>-1\<close>.
\<close>

theorem distance_unknown_metric:
  assumes "metric \<notin> {DM_EUCLIDEAN, DM_DOTPRODUCT, DM_BHATTACHARYYA, DM_HELLINGER,
             DM_MANHATTAN, DM_CHEBYSHEV, DM_BHATTACHARYYA_COEFFICIENT, DM_SQUARED_HELLINGER}"
    and "length seq1 = length seq2"
  shows "distance seq1 seq2 metric = ([''Unknown distance metric''], Inr (- 1))"
  using assms by (cases metric) (simp_all add: distance_def)

theorem distance_unknown_metric_witness:
  "DM_TYPES \<notin> {DM_EUCLIDEAN, DM_DOTPRODUCT, DM_BHATTACHARYYA, DM_HELLINGER,
      DM_MANHATTAN, DM_CHEBYSHEV, DM_BHATTACHARYYA_COEFFICIENT, DM_SQUARED_HELLINGER} \<and>
   length [0.5, 0.5 :: real] = length [0.25, 0.75 :: real] \<and>
   distance [0.5, 0.5] [0.25, 0.75] DM_TYPES = ([''Unknown distance metric''], Inr (- 1))"
  using distance_unknown_metric [of DM_TYPES "[0.5, 0.5]" "[0.25, 0.75]"] by simp

lemma fold_plus_sum_list:
  fixes init :: real
  shows "fold (\<lambda>(x, y) acc. acc + f x y) zs init = init + sum_list (map (\<lambda>(x, y). f x y) zs)"
  by (induction zs arbitrary: init) (auto simp: add.assoc)

lemma inner_product_plus:
  fixes init :: real
  shows "inner_product xs ys init (+) f = init + sum_list (map2 f xs ys)"
  by (simp add: inner_product_def fold_plus_sum_list)

lemma sum_list_map2_nth:
  fixes f :: "real \<Rightarrow> real \<Rightarrow> real"
  assumes "length xs = length ys"
  shows "sum_list (map2 f xs ys) = (\<Sum>i<length xs. f (xs ! i) (ys ! i))"
  using assms by (simp add: sum_list_sum_nth atLeast0LessThan)

lemma battacharyya_sum_bounds:
  assumes "length xs = length ys" "\<forall>x \<in> set xs. 0 \<le> x" "\<forall>y \<in> set ys. 0 \<le> y"
  shows "0 \<le> sum_list (map2 battacharyya xs ys) \<and>
         sum_list (map2 battacharyya xs ys) \<le> (sum_list xs + sum_list ys) / 2"
  using assms
proof (induction xs ys rule: list_induct2)
  case Nil
  then show ?case by simp
next
  case (Cons x xs y ys)
  then have xy: "0 \<le> x" "0 \<le> y" by simp_all
  have "sqrt (x * y) \<le> (x + y) / 2" using xy by (rule arith_geo_mean_sqrt)
  moreover have "0 \<le> sqrt (x * y)" using xy by simp
  ultimately show ?case using Cons by (simp add: battacharyya_def add_divide_distrib)
qed

text \<open>
  C5, as the code has it. Two normalized histograms with no common non-empty bin have
  the coefficient \<open>0\<close>, which is outside \<open>(0, 1]\<close>.
\<close>

theorem coefficient_zero_counterexample:
  "normalized [1, 0] \<and> normalized [0, 1] \<and>
   distance [1, 0] [0, 1] DM_BHATTACHARYYA_COEFFICIENT = ([], Inr 0)"
  by (simp add: normalized_def distance_def inner_product_def battacharyya_def)

text \<open>
  C5 (amended). For normalized histograms \<open>a\<close> and \<open>b\<close> with the same number of bins,
  \<open>distance\<close> with \<open>DM_BHATTACHARYYA_COEFFICIENT\<close> returns the sum of
  \<open>sqrt (a[i] * b[i])\<close>, and the sum lies in the closed interval \<open>[0, 1]\<close>.
\<close>

theorem coefficient_in_unit_interval:
  assumes "normalized a" "normalized b" "length a = length b"
  shows "\<exists>v. distance a b DM_BHATTACHARYYA_COEFFICIENT = ([], Inr v) \<and>
           v = (\<Sum>i<length a. sqrt (a ! i * b ! i)) \<and> 0 \<le> v \<and> v \<le> 1"
proof -
  have d: "distance a b DM_BHATTACHARYYA_COEFFICIENT =
      ([], Inr (sum_list (map2 battacharyya a b)))"
    using assms(3) by (simp add: distance_def inner_product_plus)
  have "sum_list (map2 battacharyya a b) = (\<Sum>i<length a. sqrt (a ! i * b ! i))"
    using assms(3) by (simp add: sum_list_map2_nth battacharyya_def)
  moreover have "0 \<le> sum_list (map2 battacharyya a b) \<and> sum_list (map2 battacharyya a b) \<le> 1"
    using battacharyya_sum_bounds [of a b] assms by (simp add: normalized_def list_all_iff)
  ultimately show ?thesis using d by simp
qed

theorem coefficient_in_unit_interval_witness:
  "normalized [1 / 4, 3 / 4] \<and> normalized [1, 0] \<and>
   length [1 / 4, 3 / 4 :: real] = length [1, 0 :: real] \<and>
   distance [1 / 4, 3 / 4] [1, 0] DM_BHATTACHARYYA_COEFFICIENT = ([], Inr (1 / 2))"
proof -
  have n: "normalized [1 / 4, 3 / 4]" "normalized [1, 0]"
    by (simp_all add: normalized_def)
  have s: "sqrt (1 / 4) = 1 / 2"
    by (rule real_sqrt_unique) (simp_all add: power2_eq_square)
  from coefficient_in_unit_interval [OF n] obtain v where
    "distance [1 / 4, 3 / 4] [1, 0] DM_BHATTACHARYYA_COEFFICIENT = ([], Inr v)"
    "v = (\<Sum>i<length [1 / 4, 3 / 4 :: real]. sqrt ([1 / 4, 3 / 4] ! i * [1, 0] ! i))"
    by auto
  moreover have "(\<Sum>i<length [1 / 4, 3 / 4 :: real]. sqrt ([1 / 4, 3 / 4] ! i * [1, 0] ! i)) = 1 / 2"
    using s by (simp add: numeral_2_eq_2)
  ultimately show ?thesis using n by simp
qed

text \<open>
  On normalized histograms the \<open>DM_SQUARED_HELLINGER\<close> branch returns what the
  \<open>DM_HELLINGER\<close> branch returns: the distance itself, not its square.
\<close>

lemma hellinger_sum:
  assumes "length xs = length ys" "\<forall>x \<in> set xs. 0 \<le> x" "\<forall>y \<in> set ys. 0 \<le> y"
  shows "sum_list (map2 hellinger xs ys) =
           sum_list xs + sum_list ys - 2 * sum_list (map2 battacharyya xs ys)"
  using assms
proof (induction xs ys rule: list_induct2)
  case Nil
  then show ?case by simp
next
  case (Cons x xs y ys)
  then have xy: "0 \<le> x" "0 \<le> y" by simp_all
  have "hellinger x y = x + y - 2 * battacharyya x y"
    using xy by (simp add: hellinger_def battacharyya_def Let_def real_sqrt_mult algebra_simps)
  then show ?case using Cons by simp
qed

lemma squared_hellinger_branch_is_hellinger:
  assumes "normalized a" "normalized b" "length a = length b"
  shows "distance a b DM_SQUARED_HELLINGER = distance a b DM_HELLINGER"
proof -
  let ?bc = "sum_list (map2 battacharyya a b)"
  have nn: "\<forall>x \<in> set a. 0 \<le> x" "\<forall>y \<in> set b. 0 \<le> y"
    and one: "sum_list a = 1" "sum_list b = 1"
    using assms(1,2) by (simp_all add: normalized_def list_all_iff)
  have "sum_list (map2 hellinger a b) = 2 * (1 - ?bc)"
    using hellinger_sum [OF assms(3) nn] one by simp
  then have "sqrt (sum_list (map2 hellinger a b)) / sqrt 2 = sqrt 2 * sqrt (1 - ?bc) / sqrt 2"
    by (simp only: real_sqrt_mult)
  then have "sqrt (sum_list (map2 hellinger a b)) / sqrt 2 = sqrt (1 - ?bc)"
    by simp
  then show ?thesis
    using assms(3) by (simp add: distance_def inner_product_plus)
qed

text \<open>
  C2. The squared Hellinger distance of normalized histograms is one minus the
  Bhattacharyya coefficient. The \<open>DM_SQUARED_HELLINGER\<close> branch takes the square root of
  that: on \<open>[9/16, 7/16]\<close> and \<open>[1, 0]\<close> the coefficient is \<open>3/4\<close>, and the branch
  returns \<open>1/2\<close>, the value of \<open>DM_HELLINGER\<close>, where one minus the coefficient is
  \<open>1/4\<close>.
\<close>

theorem squared_hellinger_failing_input:
  "normalized [9 / 16, 7 / 16] \<and> normalized [1, 0] \<and>
   distance [9 / 16, 7 / 16] [1, 0] DM_BHATTACHARYYA_COEFFICIENT = ([], Inr (3 / 4)) \<and>
   distance [9 / 16, 7 / 16] [1, 0] DM_SQUARED_HELLINGER = ([], Inr (1 / 2)) \<and>
   distance [9 / 16, 7 / 16] [1, 0] DM_HELLINGER = ([], Inr (1 / 2))"
proof -
  have s1: "sqrt (9 / 16) = 3 / 4"
    by (rule real_sqrt_unique) (simp_all add: power2_eq_square)
  have s2: "sqrt (1 / 4) = 1 / 2"
    by (rule real_sqrt_unique) (simp_all add: power2_eq_square)
  have s3: "sqrt (1 / 2) / sqrt 2 = 1 / 2"
    by (simp add: real_sqrt_divide)
  have bc: "inner_product [9 / 16, 7 / 16] [1, 0] 0 (+) battacharyya = 3 / 4"
    by (simp add: inner_product_def battacharyya_def s1)
  have hl: "inner_product [9 / 16, 7 / 16] [1, 0] 0 (+) hellinger = 1 / 2"
    by (simp add: inner_product_def hellinger_def Let_def s1)
  have "normalized [9 / 16, 7 / 16]" "normalized [1, 0]"
    by (simp_all add: normalized_def)
  moreover have "distance [9 / 16, 7 / 16] [1, 0] DM_BHATTACHARYYA_COEFFICIENT =
      ([], Inr (3 / 4))"
    by (simp add: distance_def bc)
  moreover have "distance [9 / 16, 7 / 16] [1, 0] DM_SQUARED_HELLINGER = ([], Inr (1 / 2))"
    by (simp add: distance_def bc s2)
  moreover have "distance [9 / 16, 7 / 16] [1, 0] DM_HELLINGER = ([], Inr (1 / 2))"
    by (simp add: distance_def hl s3)
  ultimately show ?thesis by blast
qed

section \<open>Properties of the set distances\<close>

text \<open>
  C3, as the code has it. At point-to-set level an unimplemented selector does return a
  default number: \<open>distance_to_point\<close> with \<open>SDM_HAUSDORFF\<close> writes
  \<open>Not yet implemented\<close> and returns its initial \<open>result\<close>, \<open>-1\<close>.
\<close>

theorem set_distance_not_implemented_counterexample:
  "distance_to_point [[0], [3]] [1] SDM_HAUSDORFF DM_EUCLIDEAN =
     ([''Not yet implemented''], Inr (- 1))"
  by (simp add: distance_to_point_def)

text \<open>
  C3 (amended). For every selector other than \<open>SDM_INFIMIM\<close> and \<open>SDM_SUPREMUM\<close>,
  \<open>distance_to_point\<close> writes \<open>Not yet implemented\<close> to \<open>std::cerr\<close> and returns the
  sentinel \<open>-1\<close>; for every selector other than \<open>SDM_HAUSDORFF\<close> and \<open>SDM_SUPINF\<close>,
  \<open>distance_to_set\<close> writes \<open>Not yet implemented\<close> to \<open>std::cerr\<close>.
\<close>

theorem set_distance_not_implemented:
  "(set_metric \<notin> {SDM_INFIMIM, SDM_SUPREMUM} \<longrightarrow>
      distance_to_point set0 point set_metric point_metric =
        ([''Not yet implemented''], Inr (- 1))) \<and>
   (set_metric' \<notin> {SDM_HAUSDORFF, SDM_SUPINF} \<longrightarrow>
      fst (distance_to_set set1 set2 set_metric' point_metric') = [''Not yet implemented''])"
proof (intro conjI impI)
  assume "set_metric \<notin> {SDM_INFIMIM, SDM_SUPREMUM}"
  then show "distance_to_point set0 point set_metric point_metric =
      ([''Not yet implemented''], Inr (- 1))"
    by (cases set_metric) (simp_all add: distance_to_point_def)
next
  assume "set_metric' \<notin> {SDM_HAUSDORFF, SDM_SUPINF}"
  then show "fst (distance_to_set set1 set2 set_metric' point_metric') = [''Not yet implemented'']"
    by (cases set_metric') (simp_all add: distance_to_set.simps)
qed

theorem set_distance_not_implemented_witness:
  "SDM_SUPINF \<notin> {SDM_INFIMIM, SDM_SUPREMUM} \<and>
   distance_to_point [[0], [3]] [1] SDM_SUPINF DM_MANHATTAN =
     ([''Not yet implemented''], Inr (- 1)) \<and>
   SDM_INFIMIM \<notin> {SDM_HAUSDORFF, SDM_SUPINF} \<and>
   fst (distance_to_set [[0], [3]] [[1]] SDM_INFIMIM DM_MANHATTAN) = [''Not yet implemented'']"
  using set_distance_not_implemented
    [of SDM_SUPINF "[[0], [3]]" "[1]" DM_MANHATTAN SDM_INFIMIM "[[0], [3]]" "[[1]]" DM_MANHATTAN]
  by simp

lemma snd_ret: "snd (ret v) = Inr v"
  by (simp add: ret_def)

lemma snd_bind:
  "snd (bind m f) = (case snd m of Inl e \<Rightarrow> Inl e | Inr v \<Rightarrow> snd (f v))"
  by (cases m) (auto simp: bind_def split: sum.splits prod.splits)

lemma snd_bind_Inr: "snd m = Inr v \<Longrightarrow> snd (bind m f) = snd (f v)"
  by (simp add: snd_bind)

lemma distance_returns:
  assumes "length x = length y"
  shows "\<exists>v. snd (distance x y point_metric) = Inr v"
  using assms by (cases point_metric) (simp_all add: distance_def)

lemma comp_point_distance_returns:
  assumes "length x = length point" "length y = length point"
  shows "\<exists>b. snd (comp_point_distance point_metric point x y) = Inr b"
proof -
  obtain dx where dx: "snd (distance x point point_metric) = Inr dx"
    using distance_returns [OF assms(1)] by blast
  obtain dy where dy: "snd (distance y point point_metric) = Inr dy"
    using distance_returns [OF assms(2)] by blast
  show ?thesis
    by (simp add: comp_point_distance_def snd_bind_Inr [OF dx] snd_bind_Inr [OF dy] snd_ret)
qed

lemma min_element_loop_returns:
  assumes "\<And>x y. x \<in> set (s # xs) \<Longrightarrow> y \<in> set (s # xs) \<Longrightarrow> \<exists>b. snd (cmp x y) = Inr b"
  shows "\<exists>r. snd (min_element_loop cmp s xs) = Inr r \<and> r \<in> set (s # xs)"
  using assms
proof (induction xs arbitrary: s)
  case Nil
  then show ?case by (simp add: snd_ret)
next
  case (Cons x xs)
  obtain b where b: "snd (cmp x s) = Inr b"
    using Cons.prems [of x s] by auto
  let ?s = "if b then x else s"
  have "\<exists>r. snd (min_element_loop cmp ?s xs) = Inr r \<and> r \<in> set (?s # xs)"
  proof (rule Cons.IH)
    fix u v assume "u \<in> set (?s # xs)" "v \<in> set (?s # xs)"
    then have "u \<in> set (s # x # xs)" "v \<in> set (s # x # xs)"
      by (auto split: if_splits)
    then show "\<exists>b. snd (cmp u v) = Inr b" by (rule Cons.prems)
  qed
  then obtain r where "snd (min_element_loop cmp ?s xs) = Inr r" "r \<in> set (?s # xs)"
    by blast
  then show ?case
    by (auto simp: snd_bind_Inr [OF b] split: if_splits)
qed

lemma max_element_loop_returns:
  assumes "\<And>x y. x \<in> set (s # xs) \<Longrightarrow> y \<in> set (s # xs) \<Longrightarrow> \<exists>b. snd (cmp x y) = Inr b"
  shows "\<exists>r. snd (max_element_loop cmp s xs) = Inr r \<and> r \<in> set (s # xs)"
  using assms
proof (induction xs arbitrary: s)
  case Nil
  then show ?case by (simp add: snd_ret)
next
  case (Cons x xs)
  obtain b where b: "snd (cmp s x) = Inr b"
    using Cons.prems [of s x] by auto
  let ?s = "if b then x else s"
  have "\<exists>r. snd (max_element_loop cmp ?s xs) = Inr r \<and> r \<in> set (?s # xs)"
  proof (rule Cons.IH)
    fix u v assume "u \<in> set (?s # xs)" "v \<in> set (?s # xs)"
    then have "u \<in> set (s # x # xs)" "v \<in> set (s # x # xs)"
      by (auto split: if_splits)
    then show "\<exists>b. snd (cmp u v) = Inr b" by (rule Cons.prems)
  qed
  then obtain r where "snd (max_element_loop cmp ?s xs) = Inr r" "r \<in> set (?s # xs)"
    by blast
  then show ?case
    by (auto simp: snd_bind_Inr [OF b] split: if_splits)
qed

lemma distance_to_point_infimum_returns:
  assumes "set0 \<noteq> []" "\<forall>p \<in> set set0. length p = length point"
  shows "\<exists>v. snd (distance_to_point set0 point SDM_INFIMIM point_metric) = Inr v"
proof -
  obtain s xs where set0: "set0 = s # xs" using assms(1) by (cases set0) auto
  have "\<exists>r. snd (min_element_loop (comp_point_distance point_metric point) s xs) = Inr r \<and>
          r \<in> set (s # xs)"
    by (rule min_element_loop_returns) (use assms(2) set0 in \<open>auto intro!: comp_point_distance_returns\<close>)
  then obtain r where
    r: "snd (min_element_loop (comp_point_distance point_metric point) s xs) = Inr r"
      and "r \<in> set (s # xs)" by blast
  then have "length r = length point" using assms(2) set0 by auto
  then obtain v where v: "snd (distance r point point_metric) = Inr v"
    using distance_returns by blast
  have m: "snd (min_element (comp_point_distance point_metric point) set0) = Inr (Some r)"
    by (simp add: min_element_def set0 snd_bind_Inr [OF r] snd_ret)
  have d: "snd (deref (Some r)) = Inr r"
    by (simp add: deref_def snd_ret)
  show ?thesis
    by (simp add: distance_to_point_def snd_bind_Inr [OF m] snd_bind_Inr [OF d] v)
qed

lemma comp_point_set_distance_returns:
  assumes "set0 \<noteq> []" "\<forall>p \<in> set set0. length p = n" "length x = n" "length y = n"
  shows "\<exists>b. snd (comp_point_set_distance SDM_INFIMIM point_metric set0 x y) = Inr b"
proof -
  obtain dx where dx: "snd (distance_to_point set0 x SDM_INFIMIM point_metric) = Inr dx"
    using distance_to_point_infimum_returns [of set0 x] assms by auto
  obtain dy where dy: "snd (distance_to_point set0 y SDM_INFIMIM point_metric) = Inr dy"
    using distance_to_point_infimum_returns [of set0 y] assms by auto
  show ?thesis
    by (simp add: comp_point_set_distance_def snd_bind_Inr [OF dx] snd_bind_Inr [OF dy] snd_ret)
qed

lemma distance_to_set_supinf_returns:
  assumes "set1 \<noteq> []" "set2 \<noteq> []"
    "\<forall>p \<in> set set1. length p = n" "\<forall>p \<in> set set2. length p = n"
  shows "\<exists>v. snd (distance_to_set set1 set2 SDM_SUPINF point_metric) = Inr v"
proof -
  obtain s xs where set1: "set1 = s # xs" using assms(1) by (cases set1) auto
  let ?cmp = "comp_point_set_distance SDM_INFIMIM point_metric set2"
  have "\<exists>r. snd (max_element_loop ?cmp s xs) = Inr r \<and> r \<in> set (s # xs)"
  proof (rule max_element_loop_returns)
    fix x y assume "x \<in> set (s # xs)" "y \<in> set (s # xs)"
    then have "length x = n" "length y = n" using assms(3) set1 by auto
    then show "\<exists>b. snd (?cmp x y) = Inr b"
      using comp_point_set_distance_returns [OF assms(2) assms(4)] by blast
  qed
  then obtain r where r: "snd (max_element_loop ?cmp s xs) = Inr r"
    and "r \<in> set (s # xs)" by blast
  then have "length r = n" using assms(3) set1 by auto
  then obtain v where v: "snd (distance_to_point set2 r SDM_INFIMIM point_metric) = Inr v"
    using distance_to_point_infimum_returns [of set2 r] assms(2,4) by auto
  have m: "snd (max_element ?cmp set1) = Inr (Some r)"
    by (simp add: max_element_def set1 snd_bind_Inr [OF r] snd_ret)
  have d: "snd (deref (Some r)) = Inr r"
    by (simp add: deref_def snd_ret)
  show ?thesis
    by (simp add: distance_to_set.simps [of set1 set2 SDM_SUPINF]
        snd_bind_Inr [OF m] snd_bind_Inr [OF d] v)
qed

text \<open>
  C8. For two non-empty sets of points of one common length and every point metric,
  \<open>distance_to_set\<close> with \<open>SDM_HAUSDORFF\<close> returns the maximum of \<open>SDM_SUPINF\<close> in
  the two directions, and so the same value for \<open>(A, B)\<close> and for \<open>(B, A)\<close>.
\<close>

theorem hausdorff_symmetric:
  assumes "A \<noteq> []" "B \<noteq> []" "\<forall>p \<in> set A. length p = n" "\<forall>p \<in> set B. length p = n"
  shows "\<exists>dist_ab dist_ba.
           snd (distance_to_set A B SDM_SUPINF m) = Inr dist_ab \<and>
           snd (distance_to_set B A SDM_SUPINF m) = Inr dist_ba \<and>
           snd (distance_to_set A B SDM_HAUSDORFF m) = Inr (max dist_ab dist_ba) \<and>
           snd (distance_to_set B A SDM_HAUSDORFF m) = Inr (max dist_ab dist_ba)"
proof -
  obtain dist_ab where ab: "snd (distance_to_set A B SDM_SUPINF m) = Inr dist_ab"
    using distance_to_set_supinf_returns [OF assms(1,2,3,4)] by blast
  obtain dist_ba where ba: "snd (distance_to_set B A SDM_SUPINF m) = Inr dist_ba"
    using distance_to_set_supinf_returns [OF assms(2,1,4,3)] by blast
  have "snd (distance_to_set A B SDM_HAUSDORFF m) = Inr (max dist_ab dist_ba)"
    by (simp add: distance_to_set.simps [of A B SDM_HAUSDORFF]
        snd_bind_Inr [OF ab] snd_bind_Inr [OF ba] snd_ret max_def)
  moreover have "snd (distance_to_set B A SDM_HAUSDORFF m) = Inr (max dist_ab dist_ba)"
    by (simp add: distance_to_set.simps [of B A SDM_HAUSDORFF]
        snd_bind_Inr [OF ab] snd_bind_Inr [OF ba] snd_ret max_def)
  ultimately show ?thesis using ab ba by blast
qed

lemma supinf_example_forward: "distance_to_set [[1], [3], [6], [7]] [[3], [6]] SDM_SUPINF DM_MANHATTAN = ([], Inr 2)"
  by (simp add: distance_to_set.simps distance_to_point_def comp_point_set_distance_def
      comp_point_distance_def max_element_def min_element_def deref_def bind_def ret_def
      distance_def inner_product_def taxicab_def)

lemma supinf_example_backward: "distance_to_set [[3], [6]] [[1], [3], [6], [7]] SDM_SUPINF DM_MANHATTAN = ([], Inr 0)"
  by (simp add: distance_to_set.simps distance_to_point_def comp_point_set_distance_def
      comp_point_distance_def max_element_def min_element_def deref_def bind_def ret_def
      distance_def inner_product_def taxicab_def)

theorem hausdorff_symmetric_witness:
  "[[1], [3], [6], [7]] \<noteq> [] \<and> [[3], [6]] \<noteq> [] \<and>
   list_all (\<lambda>p. length p = 1) [[1], [3], [6], [7 :: real]] \<and>
   list_all (\<lambda>p. length p = 1) [[3], [6 :: real]] \<and>
   snd (distance_to_set [[1], [3], [6], [7]] [[3], [6]] SDM_HAUSDORFF DM_MANHATTAN) = Inr 2 \<and>
   snd (distance_to_set [[3], [6]] [[1], [3], [6], [7]] SDM_HAUSDORFF DM_MANHATTAN) = Inr 2"
  using hausdorff_symmetric [of "[[1], [3], [6], [7]]" "[[3], [6]]" 1 DM_MANHATTAN]
  by (simp add: supinf_example_forward supinf_example_backward)

section \<open>Properties of the sequence transforms\<close>

lemma transform_equal_length:
  "length xs = length ys \<Longrightarrow> transform xs ys f = Inr (map2 f xs ys)"
  by (induction xs ys rule: list_induct2) simp_all

lemma map2_snd: "length xs = length ys \<Longrightarrow> map2 (\<lambda>x y. y) xs ys = ys"
  by (induction xs ys rule: list_induct2) simp_all

text \<open>
  C4, as the code has it. \<open>decreaseDistance\<close> (moveToward) with \<open>mu = 1\<close> on the
  target \<open>[0, 0]\<close> and the reference \<open>[4, 4]\<close> leaves the target at \<open>[4, 4]\<close>, the
  reference itself, and not at \<open>[8, 8]\<close>.
\<close>

theorem moveToward_replaces_counterexample:
  "decreaseDistance \<lparr>tomove = [0, 0], reference = [4, 4]\<rparr> (1 :: real) =
     Inr \<lparr>tomove = [4, 4], reference = [4, 4]\<rparr> \<and> [4, 4 :: real] \<noteq> [8, 8]"
  by (simp add: decreaseDistance_def op_adjust_def)

text \<open>
  C4 (amended). \<open>decreaseDistance\<close> (moveToward) with \<open>mu = 1\<close> replaces the target by
  the reference of the same length; on \<open>[0, 0]\<close> and \<open>[4, 4]\<close> the outcome is
  \<open>[4, 4]\<close>.
\<close>

theorem moveToward_replaces:
  fixes st :: "('a::linordered_idom) adjustment"
  assumes "length (tomove st) = length (reference st)"
  shows "decreaseDistance st 1 = Inr (st\<lparr>tomove := reference st\<rparr>)"
proof -
  have "op_adjust (- 1 :: 'a) = (\<lambda>x y. y)"
    by (intro ext) (simp add: op_adjust_def)
  then show ?thesis
    using assms by (simp add: decreaseDistance_def transform_equal_length map2_snd)
qed

theorem moveToward_replaces_witness:
  "length (tomove \<lparr>tomove = [0, 0 :: int], reference = [4, 4]\<rparr>) =
     length (reference \<lparr>tomove = [0, 0 :: int], reference = [4, 4]\<rparr>) \<and>
   decreaseDistance \<lparr>tomove = [0, 0 :: int], reference = [4, 4]\<rparr> 1 =
     Inr \<lparr>tomove = [4, 4], reference = [4, 4]\<rparr>"
  using moveToward_replaces [of "\<lparr>tomove = [0, 0 :: int], reference = [4, 4]\<rparr>"] by simp

text \<open>
  C7. For a target and a reference of equal length and \<open>0 < mu \<le> 1\<close>,
  \<open>increaseDistance\<close> (moveAway) sets every \<open>tomove[i]\<close> to
  \<open>tomove[i] + (tomove[i] - reference[i]) * mu\<close> and \<open>decreaseDistance\<close> (moveToward)
  to \<open>tomove[i] + (tomove[i] - reference[i]) * (-mu)\<close>; the reference is unchanged.
  For \<open>mu\<close> outside \<open>(0, 1]\<close> both fail on their assertion.
\<close>

theorem move_elementwise:
  fixes st :: "('a::linordered_idom) adjustment"
  assumes "length (tomove st) = length (reference st)"
  shows "(0 < mu \<and> mu \<le> 1 \<longrightarrow>
           (\<exists>away towards.
              increaseDistance st mu = Inr away \<and> decreaseDistance st mu = Inr towards \<and>
              reference away = reference st \<and> reference towards = reference st \<and>
              length (tomove away) = length (tomove st) \<and>
              length (tomove towards) = length (tomove st) \<and>
              (\<forall>i < length (tomove st).
                 tomove away ! i =
                   tomove st ! i + (tomove st ! i - reference st ! i) * mu \<and>
                 tomove towards ! i =
                   tomove st ! i + (tomove st ! i - reference st ! i) * (- mu)))) \<and>
         (\<not> (0 < mu \<and> mu \<le> 1) \<longrightarrow>
           increaseDistance st mu = Inl Assertion_failed \<and>
           decreaseDistance st mu = Inl Assertion_failed)"
  using assms
  by (auto simp add: increaseDistance_def decreaseDistance_def transform_equal_length
      op_adjust_def)

theorem move_elementwise_witness:
  "length (tomove \<lparr>tomove = [0, 2 :: real], reference = [4, 4]\<rparr>) =
     length (reference \<lparr>tomove = [0, 2 :: real], reference = [4, 4]\<rparr>) \<and>
   (0 :: real) < 1 / 2 \<and> (1 / 2 :: real) \<le> 1 \<and>
   increaseDistance \<lparr>tomove = [0, 2 :: real], reference = [4, 4]\<rparr> (1 / 2) =
     Inr \<lparr>tomove = [- 2, 1], reference = [4, 4]\<rparr> \<and>
   decreaseDistance \<lparr>tomove = [0, 2 :: real], reference = [4, 4]\<rparr> (1 / 2) =
     Inr \<lparr>tomove = [2, 3], reference = [4, 4]\<rparr> \<and>
   \<not> ((0 :: real) < 2 \<and> (2 :: real) \<le> 1) \<and>
   increaseDistance \<lparr>tomove = [0, 2 :: real], reference = [4, 4]\<rparr> 2 = Inl Assertion_failed \<and>
   decreaseDistance \<lparr>tomove = [0, 2 :: real], reference = [4, 4]\<rparr> 2 = Inl Assertion_failed"
  using move_elementwise [of "\<lparr>tomove = [0, 2 :: real], reference = [4, 4]\<rparr>" "1 / 2"]
    move_elementwise [of "\<lparr>tomove = [0, 2 :: real], reference = [4, 4]\<rparr>" 2]
  by (simp add: increaseDistance_def decreaseDistance_def op_adjust_def)

lemma integral_loop_sums:
  fixes xs ys :: "('a::semiring_0) list"
  assumes "length xs = length ys"
  shows "\<exists>out. integral_loop v xs ys = Inr out \<and> length out = length xs \<and>
           (\<forall>k < length xs. out ! k = v + (\<Sum>i\<le>k. xs ! i * ys ! i))"
  using assms
proof (induction xs ys arbitrary: v rule: list_induct2)
  case Nil
  then show ?case by simp
next
  case (Cons x xs y ys)
  from Cons.IH [of "v + x * y"] obtain out where
    out: "integral_loop (v + x * y) xs ys = Inr out" "length out = length xs"
      "\<forall>k < length xs. out ! k = (v + x * y) + (\<Sum>i\<le>k. xs ! i * ys ! i)"
    by blast
  have "((v + x * y) # out) ! k = v + (\<Sum>i\<le>k. (x # xs) ! i * (y # ys) ! i)"
    if "k < Suc (length xs)" for k
  proof (cases k)
    case 0
    then show ?thesis by simp
  next
    case (Suc j)
    with that out(3) show ?thesis
      by (simp add: sum.atMost_Suc_shift add.assoc del: sum.atMost_Suc)
  qed
  with out show ?case by (simp add: Let_def)
qed

text \<open>
  C9. For sequences of equal length \<open>integral\<close> writes as many values as the input has
  elements, and the value at index \<open>k\<close> is the sum of \<open>seq1[i] * seq2[i]\<close> for
  \<open>i = 0, \<dots>, k\<close>; on \<open>[1, 2, 3]\<close> and \<open>[1, 1, 1]\<close> it writes \<open>[1, 3, 6]\<close>.
\<close>

theorem integral_running_sums:
  fixes seq1 seq2 :: "('a::semiring_0) list"
  assumes "length seq1 = length seq2"
  shows "(\<exists>out. integral seq1 seq2 = Inr out \<and> length out = length seq1 \<and>
            (\<forall>k < length seq1. out ! k = (\<Sum>i\<le>k. seq1 ! i * seq2 ! i))) \<and>
         integral [1, 2, 3 :: int] [1, 1, 1] = Inr [1, 3, 6]"
proof
  show "\<exists>out. integral seq1 seq2 = Inr out \<and> length out = length seq1 \<and>
          (\<forall>k < length seq1. out ! k = (\<Sum>i\<le>k. seq1 ! i * seq2 ! i))"
  proof (cases seq1)
    case Nil
    then show ?thesis by (simp add: integral_def)
  next
    case (Cons x xs)
    with assms obtain y ys where ys: "seq2 = y # ys" "length xs = length ys"
      by (cases seq2) auto
    from integral_loop_sums [OF ys(2), of "x * y"] obtain out where
      out: "integral_loop (x * y) xs ys = Inr out" "length out = length xs"
        "\<forall>k < length xs. out ! k = x * y + (\<Sum>i\<le>k. xs ! i * ys ! i)"
      by blast
    have "((x * y) # out) ! k = (\<Sum>i\<le>k. (x # xs) ! i * (y # ys) ! i)"
      if "k < Suc (length xs)" for k
    proof (cases k)
      case 0
      then show ?thesis by simp
    next
      case (Suc j)
      with that out(3) show ?thesis
        by (simp add: sum.atMost_Suc_shift del: sum.atMost_Suc)
    qed
    with out Cons ys show ?thesis by (simp add: integral_def Let_def)
  qed
  show "integral [1, 2, 3 :: int] [1, 1, 1] = Inr [1, 3, 6]"
    by (simp add: integral_def Let_def)
qed

theorem integral_running_sums_witness:
  "length [2, 0, 5 :: real] = length [3, 7, 1 :: real] \<and>
   integral [2, 0, 5 :: real] [3, 7, 1] = Inr [6, 6, 11]"
  using integral_running_sums [of "[2, 0, 5 :: real]" "[3, 7, 1]"]
  by (simp add: integral_def Let_def)

lemma std_rotate_rotate:
  assumes "middle \<le> length xs"
  shows "std_rotate middle xs = rotate middle xs"
proof (cases "middle = length xs")
  case True
  then show ?thesis by (simp add: std_rotate_def)
next
  case False
  with assms have "middle < length xs" by simp
  then show ?thesis by (simp add: std_rotate_def rotate_drop_take)
qed

lemma reverse_inner_product_loop_value:
  fixes xs :: "('a::semiring_0) list"
  assumes "length xs \<le> length backwards"
  shows "reverse_inner_product_loop xs backwards init =
           Inr (init + (\<Sum>i<length xs. xs ! i * backwards ! i))"
  using assms
proof (induction xs backwards init rule: reverse_inner_product_loop.induct)
  case (1 backwards init)
  then show ?case by simp
next
  case (2 x xs init)
  then show ?case by simp
next
  case (3 x xs y backwards init)
  then show ?case
    by (simp add: sum.lessThan_Suc_shift add.assoc del: sum.lessThan_Suc)
qed

lemma reverse_inner_product_value:
  fixes xs :: "('a::semiring_0) list"
  assumes "length xs \<le> length ys"
  shows "reverse_inner_product xs ys 0 = Inr (\<Sum>i<length xs. xs ! i * rev ys ! i)"
  using assms by (simp add: reverse_inner_product_def reverse_inner_product_loop_value)

lemma circular_convolution_loop_effect:
  fixes st :: "('a::semiring_0) convolution"
  assumes "0 \<le> shift" "shift \<le> int (length (input2 st))"
    "length (input1 st) \<le> length (input2 st)"
  shows "circular_convolution_loop n shift st =
           Inr \<lparr>input1 = input1 st,
                input2 = rotate (n * (length (input2 st) - nat shift)) (input2 st),
                written = written st @
                  map (\<lambda>k. \<Sum>i<length (input1 st). input1 st ! i *
                         rev (rotate (Suc k * (length (input2 st) - nat shift)) (input2 st)) ! i)
                    [0..<n]\<rparr>"
  using assms
proof (induction n arbitrary: st)
  case 0
  then show ?case by simp
next
  case (Suc n)
  let ?m = "length (input2 st) - nat shift"
  let ?r = "rotate ?m (input2 st)"
  let ?v = "\<Sum>i<length (input1 st). input1 st ! i * rev ?r ! i"
  let ?st = "st\<lparr>input2 := ?r, written := written st @ [?v]\<rparr>"
  have rot: "std_rotate ?m (input2 st) = ?r"
    by (rule std_rotate_rotate) simp
  have v: "reverse_inner_product (input1 st) ?r 0 = Inr ?v"
    using Suc.prems(3) by (simp add: reverse_inner_product_value)
  have step: "circular_convolution_loop (Suc n) shift st = circular_convolution_loop n shift ?st"
    using Suc.prems(1,2) by (simp add: rot v Let_def)
  have ih: "circular_convolution_loop n shift ?st =
           Inr \<lparr>input1 = input1 ?st,
                input2 = rotate (n * (length (input2 ?st) - nat shift)) (input2 ?st),
                written = written ?st @
                  map (\<lambda>k. \<Sum>i<length (input1 ?st). input1 ?st ! i *
                         rev (rotate (Suc k * (length (input2 ?st) - nat shift)) (input2 ?st)) ! i)
                    [0..<n]\<rparr>"
    by (rule Suc.IH) (use Suc.prems in simp_all)
  show ?case
    unfolding step ih
    by (simp add: rotate_rotate map_upt_Suc add.commute del: upt_Suc)
qed

text \<open>
  C10, as the code has it. With two inputs of the same length the rotations add up to
  full turns: after the call the second sequence is what it was before the call.
\<close>

theorem circular_convolution_unchanged_counterexample:
  "circular_convolution \<lparr>input1 = [1, 2 :: int], input2 = [3, 4], written = []\<rparr> 1 =
     Inr \<lparr>input1 = [1, 2], input2 = [3, 4], written = [11, 10]\<rparr>"
  by (simp add: circular_convolution_def numeral_2_eq_2 std_rotate_def
      reverse_inner_product_def Let_def)

text \<open>
  C10 (amended). For \<open>0 \<le> shift \<le> len(seq2)\<close> and \<open>len(seq1) \<le> len(seq2)\<close>,
  \<open>circular_convolution\<close> rotates the second container in place by \<open>shift\<close> before it
  computes each output element, so that the element \<open>k\<close> is the reverse inner product
  with the container after \<open>k + 1\<close> rotations. After the call the second sequence is
  its original rotated by \<open>shift\<close> to the right \<open>len(seq1)\<close> times, which is the
  original order again when the two lengths are equal; the first sequence is
  unmodified, and exactly \<open>len(seq1)\<close> output elements have been written.
\<close>

theorem circular_convolution_effect:
  fixes st :: "('a::semiring_0) convolution"
  assumes "0 \<le> shift" "shift \<le> int (length (input2 st))"
    "length (input1 st) \<le> length (input2 st)"
  shows "\<exists>st'. circular_convolution st shift = Inr st' \<and>
           input1 st' = input1 st \<and>
           input2 st' =
             rotate (length (input1 st) * (length (input2 st) - nat shift)) (input2 st) \<and>
           (length (input1 st) = length (input2 st) \<longrightarrow> input2 st' = input2 st) \<and>
           length (written st') = length (written st) + length (input1 st) \<and>
           take (length (written st)) (written st') = written st \<and>
           (\<forall>k < length (input1 st).
              written st' ! (length (written st) + k) =
                (\<Sum>i<length (input1 st). input1 st ! i *
                   rev (rotate (Suc k * (length (input2 st) - nat shift)) (input2 st)) ! i))"
proof -
  have "length (input1 st) = length (input2 st) \<Longrightarrow>
      rotate (length (input1 st) * (length (input2 st) - nat shift)) (input2 st) = input2 st"
    by (rule rotate_id) simp
  then show ?thesis
    unfolding circular_convolution_def circular_convolution_loop_effect [OF assms]
    by (simp add: nth_append del: upt_Suc)
qed

lemma convolution_example_shorter:
  "circular_convolution \<lparr>input1 = [5 :: int], input2 = [3, 4], written = []\<rparr> 1 =
     Inr \<lparr>input1 = [5], input2 = [4, 3], written = [15]\<rparr>"
  by (simp add: circular_convolution_def std_rotate_def reverse_inner_product_def Let_def)

lemma convolution_example_equal:
  "circular_convolution \<lparr>input1 = [1, 0, 2 :: int], input2 = [3, 4, 5], written = []\<rparr> 2 =
     Inr \<lparr>input1 = [1, 0, 2], input2 = [3, 4, 5], written = [11, 14, 11]\<rparr>"
  by (simp add: circular_convolution_def numeral_3_eq_3 std_rotate_def
      reverse_inner_product_def Let_def)

theorem circular_convolution_effect_witness:
  "(0 :: int) \<le> 1 \<and>
   1 \<le> int (length (input2 \<lparr>input1 = [5 :: int], input2 = [3, 4], written = []\<rparr>)) \<and>
   length (input1 \<lparr>input1 = [5 :: int], input2 = [3, 4], written = []\<rparr>) \<le>
     length (input2 \<lparr>input1 = [5 :: int], input2 = [3, 4], written = []\<rparr>) \<and>
   circular_convolution \<lparr>input1 = [5 :: int], input2 = [3, 4], written = []\<rparr> 1 =
     Inr \<lparr>input1 = [5], input2 = [4, 3], written = [15]\<rparr> \<and>
   (0 :: int) \<le> 2 \<and>
   2 \<le> int (length (input2 \<lparr>input1 = [1, 0, 2 :: int], input2 = [3, 4, 5], written = []\<rparr>)) \<and>
   length (input1 \<lparr>input1 = [1, 0, 2 :: int], input2 = [3, 4, 5], written = []\<rparr>) =
     length (input2 \<lparr>input1 = [1, 0, 2 :: int], input2 = [3, 4, 5], written = []\<rparr>) \<and>
   circular_convolution \<lparr>input1 = [1, 0, 2 :: int], input2 = [3, 4, 5], written = []\<rparr> 2 =
     Inr \<lparr>input1 = [1, 0, 2], input2 = [3, 4, 5], written = [11, 14, 11]\<rparr>"
proof -
  have "\<exists>st'. circular_convolution
      \<lparr>input1 = [5 :: int], input2 = [3, 4], written = []\<rparr> 1 = Inr st'"
    using circular_convolution_effect
      [of 1 "\<lparr>input1 = [5 :: int], input2 = [3, 4], written = []\<rparr>"]
    by auto
  moreover have "\<exists>st'. circular_convolution
      \<lparr>input1 = [1, 0, 2 :: int], input2 = [3, 4, 5], written = []\<rparr> 2 = Inr st'"
    using circular_convolution_effect
      [of 2 "\<lparr>input1 = [1, 0, 2 :: int], input2 = [3, 4, 5], written = []\<rparr>"]
    by auto
  ultimately show ?thesis
    by (simp add: convolution_example_shorter convolution_example_equal)
qed

end
